theory Spec2Isabelle
  imports Complex_Main
begin

section \<open>Calibrating a folder of bias images\<close>

text \<open>
  The notebook \<^verbatim>\<open>02.01-Calibrating-bias-images\<close> sequences calls to Python's standard
  library, to the array library and to the image-reduction library \<^verbatim>\<open>ccdproc\<close>. The
  notebook's own code (the cells, the slices written in them, the loop) is embedded as it
  is written. The library routines it calls are not part of the repository; each is
  modelled by a definition whose comment says where its behaviour is taken from.
\<close>

subsection \<open>Errors\<close>

text \<open>The Python exceptions that the modelled calls can raise.\<close>

datatype error =
  TypeError | ValueError | IndexError | FileNotFoundError | FileExistsError | OSError

subsection \<open>Pixels and arrays\<close>

text \<open>
  A pixel value is an exact rational number or the floating-point not-a-number; rounding
  and infinities are outside the model. An array is the list of its rows.
\<close>

datatype pixel = Num rat | NaN

fun sub :: "pixel \<Rightarrow> pixel \<Rightarrow> pixel" where
  "sub (Num a) (Num b) = Num (a - b)"
| "sub _ _ = NaN"

fun nums :: "pixel list \<Rightarrow> rat list option" where
  "nums [] = Some []"
| "nums (NaN # ps) = None"
| "nums (Num a # ps) = (case nums ps of None \<Rightarrow> None | Some xs \<Rightarrow> Some (a # xs))"

text \<open>
  \<^verbatim>\<open>np.median\<close> of one row: the middle element of the sorted values, the mean of the two
  middle elements for an even count, not-a-number for an empty row or a row that holds
  one.
\<close>

definition median :: "pixel list \<Rightarrow> pixel" where
  "median ps =
     (case nums ps of
        None \<Rightarrow> NaN
      | Some xs \<Rightarrow>
          (if xs = [] then NaN
           else let s = sort xs; n = length s
                in if odd n then Num (s ! (n div 2))
                   else Num ((s ! (n div 2 - 1) + s ! (n div 2)) / 2)))"

type_synonym header = "(string \<times> string) list"

record ccddata =
  data :: "pixel list list"
  ccd_unit :: string
  header :: header

definition nrows :: "ccddata \<Rightarrow> nat" where
  "nrows c = length (data c)"

definition ncols :: "ccddata \<Rightarrow> nat" where
  "ncols c = (case data c of [] \<Rightarrow> 0 | r # _ \<Rightarrow> length r)"

text \<open>Every row of an image has the same number of columns.\<close>

definition rectangular :: "ccddata \<Rightarrow> bool" where
  "rectangular c = list_all (\<lambda>r. length r = ncols c) (data c)"

subsection \<open>Slicing\<close>

text \<open>
  The indices that a Python slice \<^verbatim>\<open>[start:stop]\<close> with non-negative bounds selects on
  an axis of length \<open>n\<close>; an omitted bound is \<open>None\<close>. Bounds beyond the axis are
  clipped, and a start at or after the stop selects nothing.
\<close>

definition slice_indices :: "nat option \<Rightarrow> nat option \<Rightarrow> nat \<Rightarrow> nat list" where
  "slice_indices start stop n =
     [min (case start of None \<Rightarrow> 0 | Some a \<Rightarrow> a) n ..<
      min (case stop of None \<Rightarrow> n | Some b \<Rightarrow> b) n]"

text \<open>\<^verbatim>\<open>ccd[:, start:stop]\<close>: all rows, the selected columns; unit and header are kept.\<close>

definition getitem_cols :: "nat option \<Rightarrow> nat option \<Rightarrow> ccddata \<Rightarrow> ccddata" where
  "getitem_cols start stop c =
     c\<lparr>data := map (\<lambda>row. map (\<lambda>j. row ! j) (slice_indices start stop (length row))) (data c)\<rparr>"

text \<open>
  The two regions the notebook writes: \<^verbatim>\<open>[:, 2055:]\<close> supplies the overscan statistic,
  \<^verbatim>\<open>[:, :2048]\<close> is what the crop keeps. The crop removes every other column.
\<close>

definition overscan_region :: "nat \<Rightarrow> nat list" where
  "overscan_region n = slice_indices (Some 2055) None n"

definition kept_region :: "nat \<Rightarrow> nat list" where
  "kept_region n = slice_indices None (Some 2048) n"

definition cropped_region :: "nat \<Rightarrow> nat list" where
  "cropped_region n = filter (\<lambda>j. j \<notin> set (kept_region n)) [0..<n]"

subsection \<open>The library's two operations\<close>

text \<open>
  Modelled from the spec: \<^verbatim>\<open>ccdproc.subtract_overscan\<close> belongs to the external
  library, not to the repository. The spec describes it as the "subtraction of a scalar
  or per-row constant derived from a designated sub-region". With \<^verbatim>\<open>median=True\<close> and
  the default axis the library takes the median of every row of the region, shapes the
  medians as one column and subtracts that column from the image data with the array
  library's broadcasting: row counts that agree subtract row by row, a one-row region
  gives one scalar for every row, a one-row image is repeated against every median, and
  any other pair of row counts raises \<^verbatim>\<open>ValueError\<close>. The header keyword with which the
  library logs the call is not modelled.
\<close>

definition broadcast_sub :: "pixel list list \<Rightarrow> pixel list \<Rightarrow> error + pixel list list" where
  "broadcast_sub d oscan =
     (if length d = length oscan then
        Inr (map (\<lambda>(row, m). map (\<lambda>x. sub x m) row) (zip d oscan))
      else if length oscan = 1 then
        Inr (map (\<lambda>row. map (\<lambda>x. sub x (hd oscan)) row) d)
      else if length d = 1 then
        Inr (map (\<lambda>m. map (\<lambda>x. sub x m) (hd d)) oscan)
      else Inl ValueError)"

definition subtract_overscan :: "ccddata \<Rightarrow> ccddata \<Rightarrow> error + ccddata" where
  "subtract_overscan ccd overscan =
     (case broadcast_sub (data ccd) (map median (data overscan)) of
        Inl e \<Rightarrow> Inl e
      | Inr d \<Rightarrow> Inr (ccd\<lparr>data := d\<rparr>))"

text \<open>
  Modelled from the spec: \<^verbatim>\<open>ccdproc.trim_image\<close> belongs to the external library. Called
  without a section string, as the notebook does, it returns a copy of its argument: the
  "cropping of each image" is done by the slice that the notebook passes in.
\<close>

definition trim_image :: "ccddata \<Rightarrow> ccddata" where
  "trim_image ccd = ccd"

subsection \<open>The world: files, directories, trace\<close>

text \<open>
  A path is a directory and a file name. The file system holds image files only, in an
  association list, and the directories that exist. The trace records every image read,
  every printed line and every image written, in the order in which they happen.
\<close>

type_synonym path = "string \<times> string"

datatype event = Read path | Print string | Write path

record world =
  fs :: "(path \<times> ccddata) list"
  dirs :: "string list"
  trace :: "event list"

datatype pyval = PyBool bool | PyInt int

text \<open>
  \<^verbatim>\<open>Path.mkdir(mode=0o777, parents=False, exist_ok=False)\<close> of Python's standard library.
  A keyword that is not a parameter name fails the call with \<^verbatim>\<open>TypeError\<close> before the
  body runs. Otherwise an existing directory raises \<^verbatim>\<open>FileExistsError\<close> unless
  \<^verbatim>\<open>exist_ok\<close> is true, and a missing one is created.
\<close>

definition mkdir_params :: "string list" where
  "mkdir_params = [''mode'', ''parents'', ''exist_ok'']"

definition Path_mkdir :: "string \<Rightarrow> (string \<times> pyval) list \<Rightarrow> world \<Rightarrow> error option \<times> world" where
  "Path_mkdir p kwargs w =
     (if list_ex (\<lambda>k. k \<notin> set mkdir_params) (map fst kwargs) then (Some TypeError, w)
      else if p \<in> set (dirs w) then
        (if map_of kwargs ''exist_ok'' = Some (PyBool True) then (None, w)
         else (Some FileExistsError, w))
      else (None, w\<lparr>dirs := dirs w @ [p]\<rparr>))"

text \<open>
  The cell
  \<^verbatim>\<open>calibrated_data = Path('.', 'reduced'); calibrated_data.mkdir(exists_ok=True)\<close>.
\<close>

definition calibrated_data :: string where
  "calibrated_data = ''reduced''"

definition cell_mkdir :: "world \<Rightarrow> error option \<times> world" where
  "cell_mkdir w = Path_mkdir calibrated_data [(''exists_ok'', PyBool True)] w"

text \<open>
  \<^verbatim>\<open>CCDData.read(path, unit=u)\<close>: a missing file raises \<^verbatim>\<open>FileNotFoundError\<close>;
  otherwise the image is returned with the unit given by the caller.
\<close>

definition CCDData_read :: "path \<Rightarrow> string \<Rightarrow> world \<Rightarrow> error + (ccddata \<times> world)" where
  "CCDData_read p u w =
     (case map_of (fs w) p of
        None \<Rightarrow> Inl FileNotFoundError
      | Some c \<Rightarrow> Inr (c\<lparr>ccd_unit := u\<rparr>, w\<lparr>trace := trace w @ [Read p]\<rparr>))"

text \<open>
  \<^verbatim>\<open>ccd.write(path)\<close>: the library does not overwrite. A directory that does not exist
  raises \<^verbatim>\<open>FileNotFoundError\<close>, a file that exists raises \<^verbatim>\<open>OSError\<close>; otherwise the
  image is stored under the path.
\<close>

definition CCDData_write :: "ccddata \<Rightarrow> path \<Rightarrow> world \<Rightarrow> error + world" where
  "CCDData_write c p w =
     (if fst p \<notin> set (dirs w) then Inl FileNotFoundError
      else if map_of (fs w) p \<noteq> None then Inl OSError
      else Inr (w\<lparr>fs := fs w @ [(p, c)], trace := trace w @ [Write p]\<rparr>))"

definition print :: "string \<Rightarrow> world \<Rightarrow> world" where
  "print s w = w\<lparr>trace := trace w @ [Print s]\<rparr>"

subsection \<open>The image collection\<close>

text \<open>
  Modelled from the spec: \<^verbatim>\<open>ccdproc.ImageFileCollection\<close> belongs to the external
  library. The spec describes "directory enumeration of FITS-format image files and
  metadata extraction" and "selection of images by type": the collection holds its
  directory and, for every image file directly in it, the file name and the header;
  \<^verbatim>\<open>files_filtered(include_path=True, imagetyp=t)\<close> lists the paths of the files whose
  header gives that image type.
\<close>

record collection =
  location :: string
  summary :: "(string \<times> header) list"

definition ImageFileCollection :: "string \<Rightarrow> world \<Rightarrow> collection" where
  "ImageFileCollection loc w =
     \<lparr>location = loc,
      summary = map (\<lambda>(p, c). (snd p, header c)) (filter (\<lambda>(p, c). fst p = loc) (fs w))\<rparr>"

definition files_filtered :: "collection \<Rightarrow> string \<Rightarrow> path list" where
  "files_filtered files t =
     map (\<lambda>(n, h). (location files, n))
       (filter (\<lambda>(n, h). map_of h ''imagetyp'' = Some t) (summary files))"

subsection \<open>The cells of the notebook\<close>

text \<open>
  \<^verbatim>\<open>raw_biases = files.files_filtered(include_path=True, imagetyp='BIAS')\<close> and
  \<^verbatim>\<open>first_bias = CCDData.read(raw_biases[0], unit='adu')\<close>.
\<close>

definition cell_first_bias :: "collection \<Rightarrow> world \<Rightarrow> error + (ccddata \<times> world)" where
  "cell_first_bias files w =
     (case files_filtered files ''BIAS'' of
        [] \<Rightarrow> Inl IndexError
      | p # _ \<Rightarrow> CCDData_read p ''adu'' w)"

text \<open>
  One round of the loop over \<^verbatim>\<open>files.ccds(imagetyp='BIAS', ccd_kwargs={'unit': 'adu'},
  return_fname=True)\<close>: the generator reads the next file, then the body prints, subtracts
  the overscan, crops and writes. Nothing in the cell catches an exception, so the first
  call that raises ends the round with its error.
\<close>

definition iteration :: "ccddata \<Rightarrow> path \<Rightarrow> world \<Rightarrow> error option \<times> world" where
  "iteration first_bias p w =
     (case CCDData_read p ''adu'' w of
        Inl e \<Rightarrow> (Some e, w)
      | Inr (ccd, w1) \<Rightarrow>
          (let file_name = snd p;
               w2 = print (''foo '' @ file_name) w1
           in case subtract_overscan ccd (getitem_cols (Some 2055) None first_bias) of
                Inl e \<Rightarrow> (Some e, w2)
              | Inr ccd1 \<Rightarrow>
                  (let ccd2 = trim_image (getitem_cols None (Some 2048) ccd1)
                   in case CCDData_write ccd2 (calibrated_data, file_name) w2 of
                        Inl e \<Rightarrow> (Some e, w2)
                      | Inr w3 \<Rightarrow> (None, w3))))"

fun ccds_loop :: "ccddata \<Rightarrow> path list \<Rightarrow> world \<Rightarrow> error option \<times> world" where
  "ccds_loop first_bias [] w = (None, w)"
| "ccds_loop first_bias (p # ps) w =
     (case iteration first_bias p w of
        (Some e, w') \<Rightarrow> (Some e, w')
      | (None, w') \<Rightarrow> ccds_loop first_bias ps w')"

definition cell_loop :: "collection \<Rightarrow> ccddata \<Rightarrow> world \<Rightarrow> error option \<times> world" where
  "cell_loop files first_bias w = ccds_loop first_bias (files_filtered files ''BIAS'') w"

text \<open>
  The cells from the creation of the collection to the loop, run one after the other on
  the folder \<open>loc\<close> (\<^verbatim>\<open>python_imred_data\<close> in the notebook).
\<close>

definition calibrate_folder :: "string \<Rightarrow> world \<Rightarrow> error option \<times> world" where
  "calibrate_folder loc w =
     (let files = ImageFileCollection loc w
      in case cell_first_bias files w of
           Inl e \<Rightarrow> (Some e, w)
         | Inr (first_bias, w1) \<Rightarrow> cell_loop files first_bias w1)"

text \<open>
  The single-image cells that precede the loop:
  \<^verbatim>\<open>bias_overscan_subtracted = ccdp.subtract_overscan(first_bias,
  overscan=first_bias[:, 2055:], median=True)\<close> and
  \<^verbatim>\<open>trimmed_bias = ccdp.trim_image(bias_overscan_subtracted[:, :2048])\<close>.
\<close>

definition bias_overscan_subtracted :: "ccddata \<Rightarrow> error + ccddata" where
  "bias_overscan_subtracted first_bias =
     subtract_overscan first_bias (getitem_cols (Some 2055) None first_bias)"

definition trimmed_bias :: "ccddata \<Rightarrow> error + ccddata" where
  "trimmed_bias first_bias =
     (case bias_overscan_subtracted first_bias of
        Inl e \<Rightarrow> Inl e
      | Inr b \<Rightarrow> Inr (trim_image (getitem_cols None (Some 2048) b)))"

text \<open>The events that one successful round of the loop adds to the trace, in order.\<close>

definition events_of :: "path \<Rightarrow> event list" where
  "events_of p = [Read p, Print (''foo '' @ snd p), Write (calibrated_data, snd p)]"

text \<open>The image stored under a path has the given image type in its header.\<close>

definition has_type :: "world \<Rightarrow> path \<Rightarrow> string \<Rightarrow> bool" where
  "has_type w p t =
     (case map_of (fs w) p of
        None \<Rightarrow> False
      | Some c \<Rightarrow> map_of (header c) ''imagetyp'' = Some t)"

subsection \<open>Region descriptors of the image format\<close>

text \<open>
  A region descriptor such as \<^verbatim>\<open>BIASSEC = [2049:2080,1:4127]\<close> gives, for the fast axis
  first, the first and the last pixel of the region, counted from one. The notebooks
  describe the translation to Python: the order of the two axes is swapped and counting
  starts at zero, with the end of each range excluded, so that \<^verbatim>\<open>[1:2048,1:4128]\<close>
  becomes \<^verbatim>\<open>[0:4128, 0:2048]\<close>. The result is the pair of the row range and the column
  range, each as start and stop.
\<close>

record fits_section =
  x_first :: nat
  x_last :: nat
  y_first :: nat
  y_last :: nat

definition python_slices :: "fits_section \<Rightarrow> (nat \<times> nat) \<times> (nat \<times> nat)" where
  "python_slices s = ((y_first s - 1, y_last s), (x_first s - 1, x_last s))"

definition biassec :: fits_section where
  "biassec = \<lparr>x_first = 2049, x_last = 2080, y_first = 1, y_last = 4127\<rparr>"

subsection \<open>Example folders\<close>

text \<open>
  Rows of 2056 pixels: 2055 pixels of one exposed value and one overscan pixel. The first
  folder holds two bias images with different overscan levels and a flat; the second
  holds a bias image of two rows and one of a single row.
\<close>

definition sample_row :: "rat \<Rightarrow> rat \<Rightarrow> pixel list" where
  "sample_row v b = replicate 2055 (Num v) @ [Num b]"

definition sample_image :: "pixel list list \<Rightarrow> string \<Rightarrow> string \<Rightarrow> ccddata" where
  "sample_image rows u t = \<lparr>data = rows, ccd_unit = u, header = [(''imagetyp'', t)]\<rparr>"

definition sample_world :: world where
  "sample_world =
     \<lparr>fs = [((''python_imred_data'', ''a.fits''), sample_image [sample_row 100 10] [] ''BIAS''),
            ((''python_imred_data'', ''b.fits''), sample_image [sample_row 100 20] [] ''BIAS''),
            ((''python_imred_data'', ''c.fits''), sample_image [sample_row 500 20] [] ''FLAT'')],
      dirs = [''python_imred_data'', ''reduced''],
      trace = []\<rparr>"

definition sample_world_rows :: world where
  "sample_world_rows =
     \<lparr>fs = [((''python_imred_data'', ''a.fits''),
             sample_image [sample_row 100 10, sample_row 100 30] [] ''BIAS''),
            ((''python_imred_data'', ''b.fits''), sample_image [sample_row 100 20] [] ''BIAS'')],
      dirs = [''python_imred_data'', ''reduced''],
      trace = []\<rparr>"

text \<open>
  The first bias image of the first folder as the notebook reads it, and what the loop
  leaves behind there: the files it writes and the events it adds to the trace.
\<close>

definition sample_first :: ccddata where
  "sample_first = sample_image [sample_row 100 10] ''adu'' ''BIAS''"

definition sample_outputs :: "(path \<times> ccddata) list" where
  "sample_outputs =
     [((''reduced'', ''a.fits''), sample_image [replicate 2048 (Num 90)] ''adu'' ''BIAS''),
      ((''reduced'', ''b.fits''), sample_image [replicate 2048 (Num 90)] ''adu'' ''BIAS'')]"

definition sample_events :: "event list" where
  "sample_events =
     [Read (''python_imred_data'', ''a.fits''), Print ''foo a.fits'', Write (''reduced'', ''a.fits''),
      Read (''python_imred_data'', ''b.fits''), Print ''foo b.fits'', Write (''reduced'', ''b.fits'')]"

definition sample_result :: world where
  "sample_result = sample_world\<lparr>fs := fs sample_world @ sample_outputs, trace := sample_events\<rparr>"

section \<open>Properties\<close>

subsection \<open>Creating the output directory\<close>

text \<open>
  Claim C9. The cell that creates the output directory fails on every run: it passes the
  keyword \<^verbatim>\<open>exists_ok\<close>, which is not a parameter of \<^verbatim>\<open>Path.mkdir\<close>, so the call
  raises \<^verbatim>\<open>TypeError\<close> and leaves the world as it was, whether or not the directory
  \<^verbatim>\<open>reduced\<close> exists.
\<close>

theorem cell_mkdir_always_TypeError: "cell_mkdir w = (Some TypeError, w)"
  by (simp add: cell_mkdir_def Path_mkdir_def mkdir_params_def)


subsection \<open>Slices as column ranges\<close>

lemma map_nth_upt: "b \<le> length xs \<Longrightarrow> map (\<lambda>j. xs ! j) [a..<b] = drop a (take b xs)"
  by (rule nth_equalityI) auto

lemma slice_row:
  "map (\<lambda>j. row ! j) (slice_indices start stop (length row)) =
     drop (case start of None \<Rightarrow> 0 | Some a \<Rightarrow> a)
       (take (case stop of None \<Rightarrow> length row | Some b \<Rightarrow> b) row)"
  unfolding slice_indices_def
  by (simp add: map_nth_upt split: option.splits) (auto simp: min_def)

lemma data_getitem_from: "data (getitem_cols (Some a) None c) = map (drop a) (data c)"
  by (simp add: getitem_cols_def slice_row)

lemma data_getitem_upto: "data (getitem_cols None (Some b) c) = map (take b) (data c)"
  by (simp add: getitem_cols_def slice_row)

text \<open>The slices of the loop select exactly the two named regions of every row.\<close>

lemma getitem_overscan_region:
  "data (getitem_cols (Some 2055) None c) =
     map (\<lambda>row. map (\<lambda>j. row ! j) (overscan_region (length row))) (data c)"
  by (simp add: getitem_cols_def overscan_region_def)

lemma getitem_kept_region:
  "data (getitem_cols None (Some 2048) c) =
     map (\<lambda>row. map (\<lambda>j. row ! j) (kept_region (length row))) (data c)"
  by (simp add: getitem_cols_def kept_region_def)

lemma overscan_region_eq: "overscan_region n = [min 2055 n..<n]"
  by (simp add: overscan_region_def slice_indices_def)

lemma kept_region_eq: "kept_region n = [0..<min 2048 n]"
  by (simp add: kept_region_def slice_indices_def)

lemma filter_not_less_upt: "a \<le> n \<Longrightarrow> filter (\<lambda>j. \<not> j < a) [0..<n] = [a..<n]"
proof -
  assume le: "a \<le> n"
  have "[0..<a + (n - a)] = [0..<a] @ [a..<a + (n - a)]"
    by (rule upt_add_eq_append) simp
  with le have "[0..<n] = [0..<a] @ [a..<n]"
    by simp
  then have "filter (\<lambda>j. \<not> j < a) [0..<n] =
      filter (\<lambda>j. \<not> j < a) [0..<a] @ filter (\<lambda>j. \<not> j < a) [a..<n]"
    by simp
  also have "filter (\<lambda>j. \<not> j < a) [0..<a] = []"
    by (simp add: filter_empty_conv)
  also have "filter (\<lambda>j. \<not> j < a) [a..<n] = [a..<n]"
    by (simp add: filter_id_conv)
  finally show ?thesis by simp
qed

lemma cropped_region_eq: "cropped_region n = [min 2048 n..<n]"
proof -
  have "cropped_region n = filter (\<lambda>j. \<not> j < min 2048 n) [0..<n]"
    unfolding cropped_region_def kept_region_eq by (rule filter_cong) auto
  also have "\<dots> = [min 2048 n..<n]"
    by (rule filter_not_less_upt) simp
  finally show ?thesis .
qed



lemma upt_split: "i \<le> j \<Longrightarrow> j \<le> k \<Longrightarrow> [i..<k] = [i..<j] @ [j..<k]"
proof -
  assume "i \<le> j" and "j \<le> k"
  have "[i..<j + (k - j)] = [i..<j] @ [j..<j + (k - j)]"
    using \<open>i \<le> j\<close> by (rule upt_add_eq_append)
  with \<open>j \<le> k\<close> show ?thesis by simp
qed

subsection \<open>The subtraction region and the cropped region\<close>

text \<open>
  Claim C3, as stated, fails: the region whose median is subtracted and the region that
  the crop removes do not coincide. On an image of 2080 columns, column 2048 is cropped
  away but does not belong to the region that supplies the median.
\<close>

theorem regions_differ_at_column_2048:
  "overscan_region 2080 \<noteq> cropped_region 2080 \<and>
   2048 \<in> set (cropped_region 2080) \<and> 2048 \<notin> set (overscan_region 2080)"
  by (simp add: overscan_region_eq cropped_region_eq)

text \<open>
  Claim C3, amended. On an image of any width, the region that the crop removes is the
  columns 2048 to 2054 followed by the region whose median is subtracted: the subtraction
  region is the tail of the cropped region, seven columns shorter on an image that is
  wide enough.
\<close>

theorem cropped_region_is_margin_then_overscan:
  "cropped_region n = [min 2048 n..<min 2055 n] @ overscan_region n"
  unfolding cropped_region_eq overscan_region_eq
  by (rule upt_split) simp_all

text \<open>
  Claim C10. The overscan statistic is computed from the columns \<open>overscan_region\<close> of
  each row of the image that supplies it, and the written image consists of the columns
  \<open>kept_region\<close> of each row. Every column that supplies the statistic lies in the region
  that the crop of an image of the same width removes, and no such column, of an image of
  any width, is among the columns that the crop of any image keeps: no pixel position
  that contributed to the subtracted value is a pixel position of a written image.
\<close>

theorem overscan_columns_are_cropped_away:
  "data (getitem_cols (Some 2055) None fb) =
     map (\<lambda>row. map (\<lambda>j. row ! j) (overscan_region (length row))) (data fb) \<and>
   data (getitem_cols None (Some 2048) c) =
     map (\<lambda>row. map (\<lambda>j. row ! j) (kept_region (length row))) (data c) \<and>
   set (overscan_region n) \<subseteq> set (cropped_region n) \<and>
   set (overscan_region m) \<inter> set (kept_region n) = {}"
proof (intro conjI)
  show "data (getitem_cols (Some 2055) None fb) =
      map (\<lambda>row. map (\<lambda>j. row ! j) (overscan_region (length row))) (data fb)"
    by (rule getitem_overscan_region)
  show "data (getitem_cols None (Some 2048) c) =
      map (\<lambda>row. map (\<lambda>j. row ! j) (kept_region (length row))) (data c)"
    by (rule getitem_kept_region)
  show "set (overscan_region n) \<subseteq> set (cropped_region n)"
    by (auto simp: overscan_region_eq cropped_region_eq)
  show "set (overscan_region m) \<inter> set (kept_region n) = {}"
    by (auto simp: overscan_region_eq kept_region_eq)
qed

subsection \<open>The region descriptor and the crop\<close>

lemma python_slices_notebook_example:
  "python_slices \<lparr>x_first = 1, x_last = 2048, y_first = 1, y_last = 4128\<rparr> =
     ((0, 4128), (0, 2048))"
  by (simp add: python_slices_def)

lemma python_slices_biassec: "python_slices biassec = ((0, 4127), (2048, 2080))"
  by (simp add: python_slices_def biassec_def)

text \<open>
  Claim C7. A descriptor whose column range starts at pixel 2049, counted from one, and
  runs to the last column of an image of \<open>n\<close> columns translates to the Python column
  range from 2048 to \<open>n\<close> on the second axis. That range is exactly what the crop of
  the pipeline removes, and the crop keeps the columns 0 to 2047.
\<close>

theorem crop_boundary_translates_descriptor:
  "snd (python_slices \<lparr>x_first = 2049, x_last = n, y_first = a, y_last = b\<rparr>) = (2048, n) \<and>
   slice_indices (Some 2048) (Some n) n = cropped_region n \<and>
   kept_region n = [0..<min 2048 n]"
  by (simp add: python_slices_def slice_indices_def cropped_region_eq kept_region_eq)



subsection \<open>One round of the loop\<close>

lemma iteration_ok:
  assumes "iteration fb p w = (None, w')"
  obtains c d where "map_of (fs w) p = Some c"
    and "subtract_overscan (c\<lparr>ccd_unit := ''adu''\<rparr>) (getitem_cols (Some 2055) None fb) = Inr d"
    and "calibrated_data \<in> set (dirs w)"
    and "map_of (fs w) (calibrated_data, snd p) = None"
    and "fs w' = fs w @ [((calibrated_data, snd p), trim_image (getitem_cols None (Some 2048) d))]"
    and "trace w' = trace w @ events_of p"
    and "dirs w' = dirs w"
  using assms
  by (auto simp: iteration_def CCDData_read_def CCDData_write_def print_def events_of_def Let_def
      split: option.splits sum.splits if_splits)

lemma iteration_failed:
  assumes "iteration fb p w = (Some e, w')"
  shows "fs w' = fs w \<and> dirs w' = dirs w \<and>
         (trace w' = trace w \<or> trace w' = trace w @ take 2 (events_of p))"
  using assms
  by (auto simp: iteration_def CCDData_read_def CCDData_write_def print_def events_of_def Let_def
      split: option.splits sum.splits if_splits)

text \<open>Each of the three calls that can raise ends the round with the error it raised.\<close>

lemma read_error_ends_round:
  "CCDData_read p ''adu'' w = Inl e \<Longrightarrow> iteration fb p w = (Some e, w)"
  by (simp add: iteration_def)

lemma subtract_error_ends_round:
  "CCDData_read p ''adu'' w = Inr (ccd, w1) \<Longrightarrow>
   subtract_overscan ccd (getitem_cols (Some 2055) None fb) = Inl e \<Longrightarrow>
   iteration fb p w = (Some e, print (''foo '' @ snd p) w1)"
  by (simp add: iteration_def)

lemma write_error_ends_round:
  "CCDData_read p ''adu'' w = Inr (ccd, w1) \<Longrightarrow>
   subtract_overscan ccd (getitem_cols (Some 2055) None fb) = Inr ccd1 \<Longrightarrow>
   CCDData_write (trim_image (getitem_cols None (Some 2048) ccd1)) (calibrated_data, snd p)
     (print (''foo '' @ snd p) w1) = Inl e \<Longrightarrow>
   iteration fb p w = (Some e, print (''foo '' @ snd p) w1)"
  by (simp add: iteration_def)

lemma iteration_trace:
  assumes "iteration fb p w = (r, w')"
  shows "\<exists>j. trace w' = trace w @ take j (events_of p) \<and> (if r = None then j = 3 else j < 3)"
proof (cases r)
  case None
  with assms have "trace w' = trace w @ events_of p" by (auto elim: iteration_ok)
  then have "trace w' = trace w @ take 3 (events_of p)" by (simp add: events_of_def)
  with None show ?thesis by auto
next
  case (Some e)
  with assms iteration_failed
  have "trace w' = trace w \<or> trace w' = trace w @ take 2 (events_of p)" by blast
  then have "trace w' = trace w @ take 0 (events_of p) \<or> trace w' = trace w @ take 2 (events_of p)"
    by simp
  then show ?thesis
  proof
    assume "trace w' = trace w @ take 0 (events_of p)"
    with Some show ?thesis by (intro exI [of _ 0]) simp
  next
    assume "trace w' = trace w @ take 2 (events_of p)"
    with Some show ?thesis by (intro exI [of _ 2]) simp
  qed
qed

subsection \<open>The loop\<close>

lemma ccds_loop_append:
  "ccds_loop fb (ps @ qs) w =
     (case ccds_loop fb ps w of (Some e, w') \<Rightarrow> (Some e, w') | (None, w') \<Rightarrow> ccds_loop fb qs w')"
  by (induction ps arbitrary: w) (auto split: prod.splits option.splits)

lemma ccds_loop_trace:
  "ccds_loop fb ps w = (None, w') \<Longrightarrow> trace w' = trace w @ concat (map events_of ps)"
proof (induction ps arbitrary: w)
  case Nil
  then show ?case by simp
next
  case (Cons p ps)
  then obtain w1 where it: "iteration fb p w = (None, w1)" and rest: "ccds_loop fb ps w1 = (None, w')"
    by (auto split: prod.splits option.splits)
  from it have "trace w1 = trace w @ events_of p" by (rule iteration_ok)
  with Cons.IH [OF rest] show ?case by simp
qed

lemma ccds_loop_fs:
  "ccds_loop fb ps w = (None, w') \<Longrightarrow>
     \<exists>outs. fs w' = fs w @ outs \<and> map fst outs = map (\<lambda>p. (calibrated_data, snd p)) ps \<and>
       distinct (map fst outs) \<and> list_all (\<lambda>k. map_of (fs w) k = None) (map fst outs)"
proof (induction ps arbitrary: w)
  case Nil
  then show ?case by simp
next
  case (Cons p ps)
  then obtain w1 where it: "iteration fb p w = (None, w1)" and rest: "ccds_loop fb ps w1 = (None, w')"
    by (auto split: prod.splits option.splits)
  from it obtain d where
    fresh: "map_of (fs w) (calibrated_data, snd p) = None" and
    fs1: "fs w1 = fs w @ [((calibrated_data, snd p), d)]"
    by (auto elim: iteration_ok)
  from Cons.IH [OF rest] obtain outs where
    o1: "fs w' = fs w1 @ outs" and
    o2: "map fst outs = map (\<lambda>p. (calibrated_data, snd p)) ps" and
    o3: "distinct (map fst outs)" and
    o4: "list_all (\<lambda>k. map_of (fs w1) k = None) (map fst outs)"
    by blast
  let ?k = "(calibrated_data, snd p)"
  let ?outs = "(?k, d) # outs"
  have a: "fs w' = fs w @ ?outs" using o1 fs1 by simp
  have b: "map fst ?outs = map (\<lambda>p. (calibrated_data, snd p)) (p # ps)" using o2 by simp
  have notin: "?k \<notin> set (map fst outs)"
  proof
    assume "?k \<in> set (map fst outs)"
    with o4 have "map_of (fs w1) ?k = None" by (auto simp: list_all_iff)
    with fs1 show False by (simp add: map_add_def split: option.splits)
  qed
  have c: "distinct (map fst ?outs)" using o3 notin by simp
  have d: "list_all (\<lambda>k. map_of (fs w) k = None) (map fst ?outs)"
    using o4 fresh fs1 by (auto simp: list_all_iff map_add_def split: option.splits)
  from a b c d show ?case by blast
qed

lemma length_concat_events: "length (concat (map events_of ps)) = 3 * length ps"
  by (induction ps) (auto simp: events_of_def)

lemma ccds_loop_trace_prefix:
  "ccds_loop fb ps w = (r, w') \<Longrightarrow>
     \<exists>m. trace w' = trace w @ take m (concat (map events_of ps)) \<and>
         (if r = None then m = 3 * length ps else m < 3 * length ps)"
proof (induction ps arbitrary: w)
  case Nil
  then show ?case by auto
next
  case (Cons p ps)
  obtain r1 w1 where it: "iteration fb p w = (r1, w1)" by (cases "iteration fb p w")
  from iteration_trace [OF it] obtain j where
    j: "trace w1 = trace w @ take j (events_of p)" "if r1 = None then j = 3 else j < 3" by blast
  have len: "length (events_of p) = 3" by (simp add: events_of_def)
  show ?case
  proof (cases r1)
    case None
    with it Cons.prems have rest: "ccds_loop fb ps w1 = (r, w')" by simp
    from Cons.IH [OF rest] obtain m where
      m: "trace w' = trace w1 @ take m (concat (map events_of ps))"
         "if r = None then m = 3 * length ps else m < 3 * length ps" by blast
    from None j have "j = 3" by simp
    with j len have t1: "trace w1 = trace w @ events_of p" by simp
    have "trace w' = trace w @ take (3 + m) (concat (map events_of (p # ps)))"
      using m(1) t1 len by simp
    moreover have "if r = None then 3 + m = 3 * length (p # ps) else 3 + m < 3 * length (p # ps)"
      using m(2) by (auto split: if_splits)
    ultimately show ?thesis by blast
  next
    case (Some e)
    with it Cons.prems have eq: "r = Some e" "w' = w1" by auto
    from Some j have "j < 3" by simp
    with j(1) len eq have "trace w' = trace w @ take j (concat (map events_of (p # ps)))"
      by simp
    moreover have "j < 3 * length (p # ps)" using \<open>j < 3\<close> by simp
    ultimately show ?thesis using eq by auto
  qed
qed

lemma nth_concat_events:
  "i < length ps \<Longrightarrow> take 3 (drop (3 * i) (concat (map events_of ps))) = events_of (ps ! i)"
proof (induction ps arbitrary: i)
  case Nil
  then show ?case by simp
next
  case (Cons p ps)
  have len: "length (events_of p) = 3" by (simp add: events_of_def)
  show ?case
  proof (cases i)
    case 0
    then show ?thesis using len by simp
  next
    case (Suc k)
    with Cons.prems have "k < length ps" by simp
    from Cons.IH [OF this] show ?thesis using Suc len by simp
  qed
qed

lemma map_of_append_Some: "map_of xs k = Some v \<Longrightarrow> map_of (xs @ ys) k = Some v"
  by (simp add: map_add_def)

lemma ccds_loop_output:
  "ccds_loop fb ps w = (None, w') \<Longrightarrow> p \<in> set ps \<Longrightarrow> map_of (fs w) p = Some c \<Longrightarrow>
     \<exists>d. subtract_overscan (c\<lparr>ccd_unit := ''adu''\<rparr>) (getitem_cols (Some 2055) None fb) = Inr d \<and>
         map_of (fs w') (calibrated_data, snd p) = Some (trim_image (getitem_cols None (Some 2048) d))"
proof (induction ps arbitrary: w)
  case Nil
  then show ?case by simp
next
  case (Cons q ps)
  from Cons.prems(1) obtain w1 where
    it: "iteration fb q w = (None, w1)" and rest: "ccds_loop fb ps w1 = (None, w')"
    by (auto split: prod.splits option.splits)
  from it obtain c' d' where
    rd: "map_of (fs w) q = Some c'" and
    sb: "subtract_overscan (c'\<lparr>ccd_unit := ''adu''\<rparr>) (getitem_cols (Some 2055) None fb) = Inr d'" and
    fresh: "map_of (fs w) (calibrated_data, snd q) = None" and
    fs1: "fs w1 = fs w @ [((calibrated_data, snd q), trim_image (getitem_cols None (Some 2048) d'))]"
    by (auto elim: iteration_ok)
  from ccds_loop_fs [OF rest] obtain outs where outs: "fs w' = fs w1 @ outs" by blast
  show ?case
  proof (cases "p = q")
    case True
    with rd Cons.prems(3) have "c' = c" by simp
    moreover have "map_of (fs w1) (calibrated_data, snd q) =
        Some (trim_image (getitem_cols None (Some 2048) d'))"
      using fresh fs1 by (simp add: map_add_def)
    then have "map_of (fs w') (calibrated_data, snd q) =
        Some (trim_image (getitem_cols None (Some 2048) d'))"
      using outs by (simp add: map_of_append_Some)
    ultimately show ?thesis using sb True by blast
  next
    case False
    with Cons.prems(2) have "p \<in> set ps" by simp
    moreover have "map_of (fs w1) p = Some c"
      using Cons.prems(3) fs1 by (simp add: map_of_append_Some)
    ultimately show ?thesis using Cons.IH [OF rest] by blast
  qed
qed

lemma count_concat_Read: "count_list (concat (map events_of ps)) (Read p) = count_list ps p"
  by (induction ps) (auto simp: events_of_def)

lemma count_concat_Write:
  "count_list (concat (map events_of ps)) (Write (calibrated_data, n)) = count_list (map snd ps) n"
  by (induction ps) (auto simp: events_of_def)

lemma ccds_loop_distinct_names:
  assumes "ccds_loop fb ps w = (None, w')"
  shows "distinct (map snd ps)"
proof -
  from ccds_loop_fs [OF assms] obtain outs :: "(path \<times> ccddata) list" where
    "map fst outs = map (\<lambda>p. (calibrated_data, snd p)) ps" and "distinct (map fst outs)" by blast
  then have "distinct (map (\<lambda>p. (calibrated_data, snd p)) ps)" by simp
  then show ?thesis by (simp add: distinct_map inj_on_def)
qed


subsection \<open>The example folders, run\<close>

lemma median_single: "median [Num a] = Num a"
  by (simp add: median_def)

lemma drop_sample_row: "drop 2055 (sample_row v b) = [Num b]"
  by (simp add: sample_row_def)

lemma take_sub_sample_row:
  "take 2048 (map (\<lambda>x. sub x (Num m)) (sample_row v b)) = replicate 2048 (Num (v - m))"
  by (simp add: sample_row_def)

lemma sample_bias_paths:
  "files_filtered (ImageFileCollection ''python_imred_data'' sample_world) ''BIAS'' =
     [(''python_imred_data'', ''a.fits''), (''python_imred_data'', ''b.fits'')]"
  by (simp add: files_filtered_def ImageFileCollection_def sample_world_def sample_image_def)

lemma sample_first_bias:
  "cell_first_bias (ImageFileCollection ''python_imred_data'' sample_world) sample_world =
     Inr (sample_first, sample_world\<lparr>trace := [Read (''python_imred_data'', ''a.fits'')]\<rparr>)"
  by (simp add: cell_first_bias_def sample_bias_paths CCDData_read_def sample_first_def)
     (simp add: sample_world_def sample_image_def)

lemma sample_round:
  assumes "map_of (fs w) p = Some (sample_image [sample_row v b] u t)"
    and "calibrated_data \<in> set (dirs w)"
    and "map_of (fs w) (calibrated_data, snd p) = None"
  shows "iteration (sample_image [sample_row v' b'] u' t') p w =
     (None, w\<lparr>fs := fs w @ [((calibrated_data, snd p), sample_image [replicate 2048 (Num (v - b'))] ''adu'' t)],
              trace := trace w @ events_of p\<rparr>)"
  using assms
  by (simp add: iteration_def CCDData_read_def print_def subtract_overscan_def broadcast_sub_def
      data_getitem_from sample_image_def drop_sample_row median_single trim_image_def
      getitem_cols_def slice_row take_sub_sample_row CCDData_write_def events_of_def Let_def)

lemma sample_round_a:
  "iteration sample_first (''python_imred_data'', ''a.fits'') (sample_world\<lparr>trace := t\<rparr>) =
     (None, sample_world\<lparr>fs := fs sample_world @ [hd sample_outputs],
                         trace := t @ take 3 sample_events\<rparr>)"
  unfolding sample_first_def
  by (subst sample_round [where v = 100 and b = 10 and u = "[]" and t = "''BIAS''"])
     (simp_all add: sample_world_def calibrated_data_def sample_outputs_def sample_events_def
        events_of_def)

lemma sample_round_b:
  "iteration sample_first (''python_imred_data'', ''b.fits'')
      (sample_world\<lparr>fs := fs sample_world @ [hd sample_outputs], trace := t\<rparr>) =
     (None, sample_world\<lparr>fs := fs sample_world @ sample_outputs,
                         trace := t @ drop 3 sample_events\<rparr>)"
  unfolding sample_first_def
  by (subst sample_round [where v = 100 and b = 20 and u = "[]" and t = "''BIAS''"])
     (simp_all add: sample_world_def calibrated_data_def sample_outputs_def sample_events_def
        events_of_def)

lemma sample_loop:
  "cell_loop (ImageFileCollection ''python_imred_data'' sample_world) sample_first
      (sample_world\<lparr>trace := t\<rparr>) =
     (None, sample_world\<lparr>fs := fs sample_world @ sample_outputs, trace := t @ sample_events\<rparr>)"
  by (simp add: cell_loop_def sample_bias_paths sample_round_a sample_round_b sample_events_def)

lemma sample_folder:
  "calibrate_folder ''python_imred_data'' sample_world =
     (None, sample_world\<lparr>fs := fs sample_world @ sample_outputs,
                         trace := Read (''python_imred_data'', ''a.fits'') # sample_events\<rparr>)"
  by (simp add: calibrate_folder_def sample_first_bias sample_loop)

lemma sample_own_overscan:
  "trimmed_bias (sample_image [sample_row 100 20] ''adu'' ''BIAS'') =
     Inr (sample_image [replicate 2048 (Num 80)] ''adu'' ''BIAS'')"
  by (simp add: trimmed_bias_def bias_overscan_subtracted_def subtract_overscan_def
      broadcast_sub_def data_getitem_from sample_image_def drop_sample_row median_single
      trim_image_def getitem_cols_def slice_row take_sub_sample_row)

lemma sample_world_trace: "sample_world\<lparr>trace := []\<rparr> = sample_world"
  by (simp add: sample_world_def)

lemma sample_cell_loop:
  "cell_loop (ImageFileCollection ''python_imred_data'' sample_world) sample_first sample_world =
     (None, sample_result)"
  using sample_loop [of "[]"] by (simp add: sample_world_trace sample_result_def)

lemma sample_rows_paths:
  "files_filtered (ImageFileCollection ''python_imred_data'' sample_world_rows) ''BIAS'' =
     [(''python_imred_data'', ''a.fits''), (''python_imred_data'', ''b.fits'')]"
  by (simp add: files_filtered_def ImageFileCollection_def sample_world_rows_def sample_image_def)

lemma sample_rows_first_bias:
  "cell_first_bias (ImageFileCollection ''python_imred_data'' sample_world_rows) sample_world_rows =
     Inr (sample_image [sample_row 100 10, sample_row 100 30] ''adu'' ''BIAS'',
          sample_world_rows\<lparr>trace := [Read (''python_imred_data'', ''a.fits'')]\<rparr>)"
  by (simp add: cell_first_bias_def sample_rows_paths CCDData_read_def)
     (simp add: sample_world_rows_def sample_image_def)

lemma sample_rows_round_a:
  "iteration (sample_image [sample_row 100 10, sample_row 100 30] ''adu'' ''BIAS'')
      (''python_imred_data'', ''a.fits'') (sample_world_rows\<lparr>trace := t\<rparr>) =
     (None, sample_world_rows\<lparr>fs := fs sample_world_rows @
         [((''reduced'', ''a.fits''),
           sample_image [replicate 2048 (Num 90), replicate 2048 (Num 70)] ''adu'' ''BIAS'')],
        trace := t @ events_of (''python_imred_data'', ''a.fits'')\<rparr>)"
  by (simp add: iteration_def CCDData_read_def print_def subtract_overscan_def broadcast_sub_def
      trim_image_def getitem_cols_def slice_row drop_sample_row median_single take_sub_sample_row
      CCDData_write_def events_of_def Let_def sample_world_rows_def sample_image_def
      calibrated_data_def)

lemma sample_rows_round_b:
  "iteration (sample_image [sample_row 100 10, sample_row 100 30] ''adu'' ''BIAS'')
      (''python_imred_data'', ''b.fits'')
      (sample_world_rows\<lparr>fs := fs sample_world_rows @ [((''reduced'', ''a.fits''), c)], trace := t\<rparr>) =
     (None, sample_world_rows\<lparr>fs := fs sample_world_rows @
         [((''reduced'', ''a.fits''), c),
          ((''reduced'', ''b.fits''),
           sample_image [replicate 2048 (Num 90), replicate 2048 (Num 70)] ''adu'' ''BIAS'')],
        trace := t @ events_of (''python_imred_data'', ''b.fits'')\<rparr>)"
  by (simp add: iteration_def CCDData_read_def print_def subtract_overscan_def broadcast_sub_def
      trim_image_def getitem_cols_def slice_row drop_sample_row median_single take_sub_sample_row
      CCDData_write_def events_of_def Let_def sample_world_rows_def sample_image_def
      calibrated_data_def)

lemma sample_rows_folder:
  "calibrate_folder ''python_imred_data'' sample_world_rows =
     (None, sample_world_rows\<lparr>fs := fs sample_world_rows @
         [((''reduced'', ''a.fits''),
           sample_image [replicate 2048 (Num 90), replicate 2048 (Num 70)] ''adu'' ''BIAS''),
          ((''reduced'', ''b.fits''),
           sample_image [replicate 2048 (Num 90), replicate 2048 (Num 70)] ''adu'' ''BIAS'')],
        trace := Read (''python_imred_data'', ''a.fits'') #
          events_of (''python_imred_data'', ''a.fits'') @ events_of (''python_imred_data'', ''b.fits'')\<rparr>)"
  by (simp add: calibrate_folder_def sample_rows_first_bias cell_loop_def sample_rows_paths
      sample_rows_round_a sample_rows_round_b)

subsection \<open>Errors end the loop\<close>

text \<open>
  Claim C4. Nothing in the loop catches an error. When the rounds for the files \<open>ps\<close>
  have succeeded and the round for the next file \<open>p\<close> raises \<open>e\<close>, whichever of its calls
  raised it, the whole loop ends with \<open>e\<close> in the world that the failed round left: no
  image is written for \<open>p\<close>, and the files \<open>qs\<close> after it are never reached.
\<close>

theorem first_error_ends_loop:
  assumes "ccds_loop fb ps w = (None, w1)" and "iteration fb p w1 = (Some e, w2)"
  shows "ccds_loop fb (ps @ p # qs) w = (Some e, w2) \<and> fs w2 = fs w1"
  using assms iteration_failed [OF assms(2)] by (simp add: ccds_loop_append)

text \<open>
  In the first example folder, a file that has disappeared since the collection was made
  ends the loop with \<^verbatim>\<open>FileNotFoundError\<close> after the first image; the image after it is
  not processed.
\<close>

theorem first_error_ends_loop_witness:
  "ccds_loop sample_first [(''python_imred_data'', ''a.fits'')] sample_world =
     (None, sample_world\<lparr>fs := fs sample_world @ [hd sample_outputs],
                         trace := take 3 sample_events\<rparr>) \<and>
   iteration sample_first (''python_imred_data'', ''gone.fits'')
     (sample_world\<lparr>fs := fs sample_world @ [hd sample_outputs], trace := take 3 sample_events\<rparr>) =
     (Some FileNotFoundError,
      sample_world\<lparr>fs := fs sample_world @ [hd sample_outputs], trace := take 3 sample_events\<rparr>) \<and>
   ccds_loop sample_first
     ([(''python_imred_data'', ''a.fits'')] @ (''python_imred_data'', ''gone.fits'') #
      [(''python_imred_data'', ''b.fits'')]) sample_world =
     (Some FileNotFoundError,
      sample_world\<lparr>fs := fs sample_world @ [hd sample_outputs], trace := take 3 sample_events\<rparr>)"
proof -
  let ?w1 = "sample_world\<lparr>fs := fs sample_world @ [hd sample_outputs],
    trace := take 3 sample_events\<rparr>"
  have a: "ccds_loop sample_first [(''python_imred_data'', ''a.fits'')] sample_world = (None, ?w1)"
    using sample_round_a [of "[]"] by (simp add: sample_world_trace)
  have "CCDData_read (''python_imred_data'', ''gone.fits'') ''adu'' ?w1 = Inl FileNotFoundError"
    by (simp add: CCDData_read_def sample_world_def sample_outputs_def)
  then have b: "iteration sample_first (''python_imred_data'', ''gone.fits'') ?w1 =
      (Some FileNotFoundError, ?w1)"
    by (rule read_error_ends_round)
  from first_error_ends_loop [OF a b, of "[(''python_imred_data'', ''b.fits'')]"] a b
  show ?thesis by blast
qed

subsection \<open>What the loop does to one image\<close>

lemma count_list_distinct: "distinct xs \<Longrightarrow> x \<in> set xs \<Longrightarrow> count_list xs x = 1"
  by (induction xs) auto

text \<open>
  Claim C5. In a run of the loop that succeeds, every selected image is read exactly
  once, and exactly one image is written for it: the image read, with the unit set, after
  the overscan subtraction first and the crop to the columns before 2048 second.
\<close>

theorem each_image_read_transformed_written_once:
  assumes "cell_loop files fb w = (None, w')"
    and "p \<in> set (files_filtered files ''BIAS'')"
    and "map_of (fs w) p = Some c"
  shows "\<exists>d. subtract_overscan (c\<lparr>ccd_unit := ''adu''\<rparr>) (getitem_cols (Some 2055) None fb) = Inr d \<and>
     map_of (fs w') (calibrated_data, snd p) = Some (trim_image (getitem_cols None (Some 2048) d)) \<and>
     count_list (drop (length (trace w)) (trace w')) (Read p) = 1 \<and>
     count_list (drop (length (trace w)) (trace w')) (Write (calibrated_data, snd p)) = 1"
proof -
  let ?ps = "files_filtered files ''BIAS''"
  from assms(1) have run: "ccds_loop fb ?ps w = (None, w')" by (simp add: cell_loop_def)
  from ccds_loop_output [OF run assms(2,3)] obtain d where
    d: "subtract_overscan (c\<lparr>ccd_unit := ''adu''\<rparr>) (getitem_cols (Some 2055) None fb) = Inr d"
       "map_of (fs w') (calibrated_data, snd p) = Some (trim_image (getitem_cols None (Some 2048) d))"
    by blast
  have new: "drop (length (trace w)) (trace w') = concat (map events_of ?ps)"
    using ccds_loop_trace [OF run] by simp
  have names: "distinct (map snd ?ps)" using run by (rule ccds_loop_distinct_names)
  then have "distinct ?ps" by (simp add: distinct_map)
  with assms(2) have r: "count_list ?ps p = 1" by (rule count_list_distinct [rotated])
  from assms(2) have "snd p \<in> set (map snd ?ps)" by simp
  with names have wr: "count_list (map snd ?ps) (snd p) = 1" by (rule count_list_distinct)
  from d r wr show ?thesis
    unfolding new count_concat_Read count_concat_Write by blast
qed

theorem each_image_read_transformed_written_once_witness:
  "cell_loop (ImageFileCollection ''python_imred_data'' sample_world) sample_first sample_world =
     (None, sample_result) \<and>
   (''python_imred_data'', ''b.fits'') \<in>
     set (files_filtered (ImageFileCollection ''python_imred_data'' sample_world) ''BIAS'') \<and>
   map_of (fs sample_world) (''python_imred_data'', ''b.fits'') =
     Some (sample_image [sample_row 100 20] [] ''BIAS'') \<and>
   (\<exists>d. subtract_overscan ((sample_image [sample_row 100 20] [] ''BIAS'')\<lparr>ccd_unit := ''adu''\<rparr>)
          (getitem_cols (Some 2055) None sample_first) = Inr d \<and>
        map_of (fs sample_result) (calibrated_data, ''b.fits'') =
          Some (trim_image (getitem_cols None (Some 2048) d)) \<and>
        count_list (drop (length (trace sample_world)) (trace sample_result))
          (Read (''python_imred_data'', ''b.fits'')) = 1 \<and>
        count_list (drop (length (trace sample_world)) (trace sample_result))
          (Write (calibrated_data, ''b.fits'')) = 1)"
proof -
  have mem: "(''python_imred_data'', ''b.fits'') \<in>
      set (files_filtered (ImageFileCollection ''python_imred_data'' sample_world) ''BIAS'')"
    by (simp add: sample_bias_paths)
  have img: "map_of (fs sample_world) (''python_imred_data'', ''b.fits'') =
      Some (sample_image [sample_row 100 20] [] ''BIAS'')"
    by (simp add: sample_world_def)
  from each_image_read_transformed_written_once [OF sample_cell_loop mem img]
    sample_cell_loop mem img
  show ?thesis by simp
qed

subsection \<open>Selection by image type\<close>

lemma set_files_filtered:
  assumes "distinct (map fst (fs w))"
  shows "set (files_filtered (ImageFileCollection loc w) t) = {p. fst p = loc \<and> has_type w p t}"
proof -
  have "set (files_filtered (ImageFileCollection loc w) t) =
      {p. \<exists>c. (p, c) \<in> set (fs w) \<and> fst p = loc \<and> map_of (header c) ''imagetyp'' = Some t}"
    by (force simp: files_filtered_def ImageFileCollection_def)
  also have "\<dots> =
      {p. \<exists>c. map_of (fs w) p = Some c \<and> fst p = loc \<and> map_of (header c) ''imagetyp'' = Some t}"
    by (simp add: map_of_eq_Some_iff [OF assms])
  also have "\<dots> = {p. fst p = loc \<and> has_type w p t}"
    by (auto simp: has_type_def split: option.splits)
  finally show ?thesis .
qed

lemma Read_in_events: "Read p \<in> set (concat (map events_of ps)) \<longleftrightarrow> p \<in> set ps"
  by (auto simp: events_of_def)

lemma Write_in_events:
  "Write q \<in> set (concat (map events_of ps)) \<longleftrightarrow> fst q = calibrated_data \<and> snd q \<in> snd ` set ps"
  by (cases q) (auto simp: events_of_def)

text \<open>
  Claim C6. The loop runs over the collection of a folder. In a run that succeeds, the
  images read are exactly the images of that folder whose header gives the image type
  \<^verbatim>\<open>BIAS\<close>, the images written are exactly their namesakes in the output directory,
  the files that existed are left as they were, and the new files are exactly those
  outputs: an image of another type is neither read nor written.
\<close>

theorem only_bias_images_processed:
  assumes "distinct (map fst (fs w))"
    and "cell_loop (ImageFileCollection loc w) fb w = (None, w')"
  shows "(Read p \<in> set (drop (length (trace w)) (trace w')) \<longleftrightarrow>
            fst p = loc \<and> has_type w p ''BIAS'') \<and>
         (Write q \<in> set (drop (length (trace w)) (trace w')) \<longleftrightarrow>
            fst q = calibrated_data \<and> has_type w (loc, snd q) ''BIAS'') \<and>
         take (length (fs w)) (fs w') = fs w \<and>
         set (map fst (drop (length (fs w)) (fs w'))) =
            {q. fst q = calibrated_data \<and> has_type w (loc, snd q) ''BIAS''}"
proof -
  let ?ps = "files_filtered (ImageFileCollection loc w) ''BIAS''"
  from assms(2) have run: "ccds_loop fb ?ps w = (None, w')" by (simp add: cell_loop_def)
  have sel: "set ?ps = {p. fst p = loc \<and> has_type w p ''BIAS''}"
    using assms(1) by (rule set_files_filtered)
  have new: "drop (length (trace w)) (trace w') = concat (map events_of ?ps)"
    using ccds_loop_trace [OF run] by simp
  have names: "snd ` set ?ps = {n. has_type w (loc, n) ''BIAS''}"
    unfolding sel by force
  from ccds_loop_fs [OF run] obtain outs where
    outs: "fs w' = fs w @ outs" "map fst outs = map (\<lambda>p. (calibrated_data, snd p)) ?ps"
    by blast
  have a: "Read p \<in> set (drop (length (trace w)) (trace w')) \<longleftrightarrow>
      fst p = loc \<and> has_type w p ''BIAS''"
    unfolding new Read_in_events sel by simp
  have b: "Write q \<in> set (drop (length (trace w)) (trace w')) \<longleftrightarrow>
      fst q = calibrated_data \<and> has_type w (loc, snd q) ''BIAS''"
    unfolding new Write_in_events names by simp
  have c: "take (length (fs w)) (fs w') = fs w" using outs(1) by simp
  have "set (map fst (drop (length (fs w)) (fs w'))) = (\<lambda>p. (calibrated_data, snd p)) ` set ?ps"
    using outs by simp
  also have "\<dots> = {q. fst q = calibrated_data \<and> snd q \<in> snd ` set ?ps}"
    by force
  finally have d: "set (map fst (drop (length (fs w)) (fs w'))) =
      {q. fst q = calibrated_data \<and> has_type w (loc, snd q) ''BIAS''}"
    unfolding names by simp
  from a b c d show ?thesis by blast
qed

theorem only_bias_images_processed_witness:
  "distinct (map fst (fs sample_world)) \<and>
   cell_loop (ImageFileCollection ''python_imred_data'' sample_world) sample_first sample_world =
     (None, sample_result) \<and>
   Read (''python_imred_data'', ''b.fits'') \<in>
     set (drop (length (trace sample_world)) (trace sample_result)) \<and>
   Read (''python_imred_data'', ''c.fits'') \<notin>
     set (drop (length (trace sample_world)) (trace sample_result)) \<and>
   Write (''reduced'', ''c.fits'') \<notin>
     set (drop (length (trace sample_world)) (trace sample_result)) \<and>
   set (map fst (drop (length (fs sample_world)) (fs sample_result))) =
     {(''reduced'', ''a.fits''), (''reduced'', ''b.fits'')}"
proof -
  have d: "distinct (map fst (fs sample_world))"
    by (simp add: sample_world_def)
  have b: "has_type sample_world (''python_imred_data'', ''b.fits'') ''BIAS''"
    by (simp add: has_type_def sample_world_def sample_image_def)
  have c: "\<not> has_type sample_world (''python_imred_data'', ''c.fits'') ''BIAS''"
    by (simp add: has_type_def sample_world_def sample_image_def)
  have new: "set (map fst (drop (length (fs sample_world)) (fs sample_result))) =
     {(''reduced'', ''a.fits''), (''reduced'', ''b.fits'')}"
    by (simp add: sample_result_def sample_outputs_def)
  from only_bias_images_processed [OF d sample_cell_loop,
      of "(''python_imred_data'', ''b.fits'')" "(''reduced'', ''c.fits'')"]
    only_bias_images_processed [OF d sample_cell_loop,
      of "(''python_imred_data'', ''c.fits'')" "(''reduced'', ''c.fits'')"]
    b c d new sample_cell_loop
  show ?thesis by simp
qed

subsection \<open>Order of the steps\<close>

text \<open>
  Claim C8. The list of files is fixed by the collection before the loop starts. The
  events of any run of the loop, successful or not, are an initial segment of the events
  of the files taken in the order of that list, the whole of it when the run succeeds;
  the events of the file at position \<open>i\<close> are the three at positions \<open>3 * i\<close> onward:
  its read, its printed line, its write. So an image is written before the next one is
  read, and no step of a later image precedes a step of an earlier one.
\<close>

theorem loop_runs_in_enumeration_order:
  assumes "cell_loop files fb w = (r, w')"
  shows "(\<exists>m. trace w' = trace w @ take m (concat (map events_of (files_filtered files ''BIAS''))) \<and>
            (if r = None then m = 3 * length (files_filtered files ''BIAS'')
             else m < 3 * length (files_filtered files ''BIAS''))) \<and>
         (\<forall>i < length (files_filtered files ''BIAS'').
            take 3 (drop (3 * i) (concat (map events_of (files_filtered files ''BIAS'')))) =
              events_of (files_filtered files ''BIAS'' ! i))"
proof
  from assms have "ccds_loop fb (files_filtered files ''BIAS'') w = (r, w')"
    by (simp add: cell_loop_def)
  then show "\<exists>m. trace w' = trace w @ take m (concat (map events_of (files_filtered files ''BIAS''))) \<and>
            (if r = None then m = 3 * length (files_filtered files ''BIAS'')
             else m < 3 * length (files_filtered files ''BIAS''))"
    by (rule ccds_loop_trace_prefix)
next
  show "\<forall>i < length (files_filtered files ''BIAS'').
            take 3 (drop (3 * i) (concat (map events_of (files_filtered files ''BIAS'')))) =
              events_of (files_filtered files ''BIAS'' ! i)"
    by (simp add: nth_concat_events)
qed

theorem loop_runs_in_enumeration_order_witness:
  "cell_loop (ImageFileCollection ''python_imred_data'' sample_world) sample_first sample_world =
     (None, sample_result) \<and>
   (\<exists>m. trace sample_result = trace sample_world @
          take m (concat (map events_of
            (files_filtered (ImageFileCollection ''python_imred_data'' sample_world) ''BIAS''))) \<and>
        m = 6) \<and>
   take 3 (drop (3 * 1) (concat (map events_of
       (files_filtered (ImageFileCollection ''python_imred_data'' sample_world) ''BIAS'')))) =
     events_of (''python_imred_data'', ''b.fits'')"
proof -
  let ?ps = "files_filtered (ImageFileCollection ''python_imred_data'' sample_world) ''BIAS''"
  have len: "length ?ps = 2" by (simp add: sample_bias_paths)
  have snd: "?ps ! 1 = (''python_imred_data'', ''b.fits'')" by (simp add: sample_bias_paths)
  from loop_runs_in_enumeration_order [OF sample_cell_loop]
  obtain m where
    m: "trace sample_result = trace sample_world @ take m (concat (map events_of ?ps))" and
    all: "m = 3 * length ?ps" and
    blocks: "\<forall>i < length ?ps. take 3 (drop (3 * i) (concat (map events_of ?ps))) =
      events_of (?ps ! i)"
    by auto
  from all len have six: "m = 6" by simp
  from len have "1 < length ?ps" by simp
  with blocks have "take 3 (drop (3 * 1) (concat (map events_of ?ps))) = events_of (?ps ! 1)"
    by blast
  with snd have b: "take 3 (drop (3 * 1) (concat (map events_of ?ps))) =
      events_of (''python_imred_data'', ''b.fits'')"
    by simp
  from m six have a: "\<exists>m. trace sample_result = trace sample_world @
      take m (concat (map events_of ?ps)) \<and> m = 6"
    by blast
  from sample_cell_loop a b show ?thesis by blast
qed

subsection \<open>Whose overscan is subtracted\<close>

text \<open>
  Claim C1. The claim asks that the value subtracted from an image comes from the
  overscan columns of that image. The loop passes \<^verbatim>\<open>first_bias[:, 2055:]\<close> for every
  image. In the first example folder the second bias image has the overscan level 20 and
  the first one 10: the loop writes the second image with 10 subtracted, while the
  single-image cells, applied to the second image, subtract 20.
\<close>

theorem loop_subtracts_overscan_of_first_bias:
  "fst (calibrate_folder ''python_imred_data'' sample_world) = None \<and>
   map_of (fs (snd (calibrate_folder ''python_imred_data'' sample_world))) (''reduced'', ''b.fits'') =
     Some (sample_image [replicate 2048 (Num 90)] ''adu'' ''BIAS'') \<and>
   trimmed_bias (sample_image [sample_row 100 20] ''adu'' ''BIAS'') =
     Inr (sample_image [replicate 2048 (Num 80)] ''adu'' ''BIAS'')"
  by (simp add: sample_folder sample_own_overscan)
     (simp add: sample_world_def sample_outputs_def)

subsection \<open>Dimensions\<close>

text \<open>
  When the region comes from an image with as many rows as the image it is subtracted
  from, as it always does in the single-image cells, the rows are kept and the columns
  decrease by the width of the cropped region.
\<close>

lemma subtract_same_rows:
  assumes "length (data ov) = length (data c)" and "subtract_overscan c ov = Inr d"
  shows "map length (data d) = map length (data c)"
proof -
  let ?ms = "map median (data ov)"
  from assms have "data d = map (\<lambda>(row, m). map (\<lambda>x. sub x m) row) (zip (data c) ?ms)"
    by (auto simp: subtract_overscan_def broadcast_sub_def)
  then have "map length (data d) = map (\<lambda>(row, m). length row) (zip (data c) ?ms)"
    by (simp add: case_prod_unfold)
  also have "\<dots> = map length (map fst (zip (data c) ?ms))"
    by (simp add: case_prod_unfold)
  also have "\<dots> = map length (data c)"
    using assms(1) by simp
  finally show ?thesis .
qed

lemma length_cropped_region: "length (cropped_region n) = n - min 2048 n"
  by (simp add: cropped_region_eq)

lemma crop_shape:
  assumes "rectangular c" and "map length (data d) = map length (data c)"
  shows "nrows (trim_image (getitem_cols None (Some 2048) d)) = nrows c \<and>
         ncols (trim_image (getitem_cols None (Some 2048) d)) =
           ncols c - length (cropped_region (ncols c)) \<and>
         rectangular (trim_image (getitem_cols None (Some 2048) d))"
proof -
  let ?t = "trim_image (getitem_cols None (Some 2048) d)"
  have dt: "data ?t = map (take 2048) (data d)"
    by (simp add: trim_image_def data_getitem_upto)
  from assms(2) have len: "length (data d) = length (data c)"
    by (metis length_map)
  have rows: "nrows ?t = nrows c"
    by (simp add: nrows_def dt len)
  have all: "list_all (\<lambda>r. length r = ncols c) (data d)"
  proof -
    from assms(1) have "list_all (\<lambda>n. n = ncols c) (map length (data c))"
      by (simp add: rectangular_def list_all_iff)
    with assms(2) have "list_all (\<lambda>n. n = ncols c) (map length (data d))" by simp
    then show ?thesis by (simp add: list_all_iff)
  qed
  have cols: "ncols ?t = min 2048 (ncols c)"
  proof (cases "data d")
    case Nil
    with len have "data c = []" by simp
    with Nil show ?thesis by (simp add: ncols_def dt)
  next
    case (Cons r rs)
    with all have "length r = ncols c" by simp
    with Cons show ?thesis by (simp add: ncols_def dt min.commute)
  qed
  have rect: "rectangular ?t"
    using all by (auto simp: rectangular_def cols dt list_all_iff min.commute)
  from rows cols rect show ?thesis
    by (simp add: length_cropped_region)
qed

lemma calibrated_shape:
  assumes "rectangular c" and "nrows ov = nrows c"
    and "subtract_overscan c (getitem_cols (Some 2055) None ov) = Inr d"
  shows "nrows (trim_image (getitem_cols None (Some 2048) d)) = nrows c \<and>
         ncols (trim_image (getitem_cols None (Some 2048) d)) =
           ncols c - length (cropped_region (ncols c)) \<and>
         rectangular (trim_image (getitem_cols None (Some 2048) d))"
proof -
  from assms(2) have "length (data (getitem_cols (Some 2055) None ov)) = length (data c)"
    by (simp add: nrows_def data_getitem_from)
  from subtract_same_rows [OF this assms(3)] assms(1) show ?thesis
    by (rule crop_shape [rotated])
qed

lemma trimmed_bias_shape:
  assumes "rectangular c"
  shows "\<exists>t. trimmed_bias c = Inr t \<and> nrows t = nrows c \<and>
             ncols t = ncols c - length (cropped_region (ncols c)) \<and> rectangular t"
proof -
  have "length (data c) = length (map median (data (getitem_cols (Some 2055) None c)))"
    by (simp add: data_getitem_from)
  then obtain d where d: "subtract_overscan c (getitem_cols (Some 2055) None c) = Inr d"
    by (simp add: subtract_overscan_def broadcast_sub_def)
  with calibrated_shape [OF assms refl d] show ?thesis
    by (simp add: trimmed_bias_def bias_overscan_subtracted_def)
qed

text \<open>
  Claim C2. The claim asks that the number of rows is unchanged. In the loop the region
  comes from the first bias image, whatever the image at hand. In the second example
  folder the first bias image has two rows and the second bias image one: the one row is
  repeated against both medians, and the image written for it has two rows.
\<close>

theorem one_row_image_written_with_two_rows:
  "fst (calibrate_folder ''python_imred_data'' sample_world_rows) = None \<and>
   map_option nrows (map_of (fs sample_world_rows) (''python_imred_data'', ''b.fits'')) = Some 1 \<and>
   map_option nrows
     (map_of (fs (snd (calibrate_folder ''python_imred_data'' sample_world_rows)))
        (''reduced'', ''b.fits'')) = Some 2"
  by (simp add: sample_rows_folder)
     (simp add: sample_world_rows_def sample_image_def nrows_def)


end
